theory Spec2Isabelle
  imports Complex_Main "HOL-Library.Sublist"
begin

section \<open>Values of the host language\<close>

text \<open>
  The validators take a value of type \<open>unknown\<close>, so the model needs the runtime values
  of the language as far as \<open>typeof\<close>, \<open>instanceof Error\<close>, the relational operators and
  string interpolation tell them apart.

  A number is an IEEE binary64 value. The comparisons only look at its place in the
  order, so a number is modelled as not-a-number, one of the two infinities, or a finite
  rational (every finite binary64 value is one; the two zeros compare equal and both
  print as \<open>0\<close>, so they are one value here).
\<close>

datatype jsnum = NaN | PosInf | NegInf | Fin rat

text \<open>
  Strings are lists of characters; \<open>length\<close> counts the elements, as \<open>.length\<close> counts
  code units. An \<open>Error\<close> instance carries its \<open>message\<close>; every other object is
  \<open>JObject\<close>.
\<close>

datatype jsval =
    JUndefined
  | JNull
  | JBool bool
  | JNum jsnum
  | JStr string
  | JBigInt int
  | JSymbol string
  | JFunction
  | JObject
  | JError string

fun typeof :: "jsval \<Rightarrow> string" where
  "typeof JUndefined = ''undefined''"
| "typeof JNull = ''object''"
| "typeof (JBool _) = ''boolean''"
| "typeof (JNum _) = ''number''"
| "typeof (JStr _) = ''string''"
| "typeof (JBigInt _) = ''bigint''"
| "typeof (JSymbol _) = ''symbol''"
| "typeof JFunction = ''function''"
| "typeof JObject = ''object''"
| "typeof (JError _) = ''object''"

fun instanceof_Error :: "jsval \<Rightarrow> bool" where
  "instanceof_Error (JError m) = True"
| "instanceof_Error _ = False"

subsection \<open>Relational operators on numbers\<close>

text \<open>
  The abstract comparison \<open>x < y\<close> of two numbers is undefined (\<open>None\<close>) when either is
  not-a-number. \<open>a >= b\<close> is false when \<open>a < b\<close> is true or undefined, and \<open>a <= b\<close> is
  false when \<open>b < a\<close> is true or undefined.
\<close>

fun IsLessThan :: "jsnum \<Rightarrow> jsnum \<Rightarrow> bool option" where
  "IsLessThan NaN _ = None"
| "IsLessThan _ NaN = None"
| "IsLessThan PosInf _ = Some False"
| "IsLessThan _ PosInf = Some True"
| "IsLessThan _ NegInf = Some False"
| "IsLessThan NegInf _ = Some True"
| "IsLessThan (Fin x) (Fin y) = Some (x < y)"

definition js_ge :: "jsnum \<Rightarrow> jsnum \<Rightarrow> bool" where
  "js_ge a b = (case IsLessThan a b of Some r \<Rightarrow> \<not> r | None \<Rightarrow> False)"

definition js_le :: "jsnum \<Rightarrow> jsnum \<Rightarrow> bool" where
  "js_le a b = (case IsLessThan b a of Some r \<Rightarrow> \<not> r | None \<Rightarrow> False)"

subsection \<open>String interpolation\<close>

text \<open>Decimal digits of a non-negative integer, most significant first.\<close>

definition digit_char :: "nat \<Rightarrow> char" where
  "digit_char d = ''0123456789'' ! d"

fun show_nat :: "nat \<Rightarrow> string" where
  "show_nat n =
     (if n < 10 then [digit_char n] else show_nat (n div 10) @ [digit_char (n mod 10)])"

declare show_nat.simps [simp del]

definition show_int :: "int \<Rightarrow> string" where
  "show_int a = (if a < 0 then ''-'' else []) @ show_nat (nat \<bar>a\<bar>)"

text \<open>Reading decimal digits back, to say that \<open>show_nat\<close> writes the number it is given.\<close>

definition read_nat :: "string \<Rightarrow> nat" where
  "read_nat s = foldl (\<lambda>a c. 10 * a + (of_char c - 48)) 0 s"

text \<open>
  \<open>Number::toString\<close>, as a template literal applies it to a number. Not-a-number and
  the infinities have fixed names. The digits of a finite value are the shortest ones
  that read back as the same binary64 value, padded with zeros up to the decimal point.
  For an integer below \<open>2^53\<close> in magnitude these are all its decimal digits: every
  integer of that range is a binary64 value, so no other integer reads back as it. For
  every other finite value (a fraction, or a number from \<open>2^53\<close> on, such as \<open>2^64\<close>,
  which prints as \<open>18446744073709552000\<close>) the digits depend on the binary64 grid; that
  part of the host is the parameter \<open>shortest\<close>.
\<close>

definition Number_toString :: "(rat \<Rightarrow> string) \<Rightarrow> jsnum \<Rightarrow> string" where
  "Number_toString shortest x =
     (case x of
        NaN \<Rightarrow> ''NaN''
      | PosInf \<Rightarrow> ''Infinity''
      | NegInf \<Rightarrow> ''-Infinity''
      | Fin q \<Rightarrow>
          (if of_int \<lfloor>q\<rfloor> = q \<and> \<bar>q\<bar> < 9007199254740992
           then show_int \<lfloor>q\<rfloor>
           else shortest q))"

text \<open>A \<open>string | null\<close> in a template literal: \<open>null\<close> prints as the text \<open>null\<close>.\<close>

definition interpolate_message :: "string option \<Rightarrow> string" where
  "interpolate_message m = (case m of None \<Rightarrow> ''null'' | Some s \<Rightarrow> s)"

section \<open>Validation results and the synchronous checks\<close>

record ValidationResult =
  isValid :: bool
  message :: "string option"

datatype targetType = TString | TNumber

fun targetType_str :: "targetType \<Rightarrow> string" where
  "targetType_str TString = ''string''"
| "targetType_str TNumber = ''number''"

definition checkType :: "targetType \<Rightarrow> jsval \<Rightarrow> ValidationResult" where
  "checkType targetType v =
     (if typeof v = targetType_str targetType
      then \<lparr>isValid = True, message = None\<rparr>
      else \<lparr>isValid = False,
            message = Some (''Value is not a '' @ targetType_str targetType)\<rparr>)"

definition checkNumberValue ::
  "(rat \<Rightarrow> string) \<Rightarrow> jsnum \<Rightarrow> jsnum \<Rightarrow> jsval \<Rightarrow> ValidationResult" where
  "checkNumberValue shortest mn mx v =
     (case v of
        JNum n \<Rightarrow>
          (let ok = js_ge n mn \<and> js_le n mx
           in \<lparr>isValid = ok,
               message = (if ok then None
                          else Some (''Value should be between '' @ Number_toString shortest mn
                                     @ '' and '' @ Number_toString shortest mx))\<rparr>)
      | _ \<Rightarrow> \<lparr>isValid = False, message = Some ''Value is not a number''\<rparr>)"

definition checkStringLength ::
  "(rat \<Rightarrow> string) \<Rightarrow> jsnum \<Rightarrow> jsnum \<Rightarrow> jsval \<Rightarrow> ValidationResult" where
  "checkStringLength shortest mn mx v =
     (case v of
        JStr s \<Rightarrow>
          (let stringLength = Fin (of_nat (length s));
               ok = js_ge stringLength mn \<and> js_le stringLength mx
           in \<lparr>isValid = ok,
               message = (if ok then None
                          else Some (''Length should be between '' @ Number_toString shortest mn
                                     @ '' and '' @ Number_toString shortest mx))\<rparr>)
      | _ \<Rightarrow> \<lparr>isValid = False, message = Some ''Value is not a string''\<rparr>)"

section \<open>The validation runners\<close>

definition syncValidate :: "jsval \<Rightarrow> (jsval \<Rightarrow> ValidationResult) list \<Rightarrow> ValidationResult list" where
  "syncValidate v validators = map (\<lambda>validator. validator v) validators"

subsection \<open>Promises\<close>

text \<open>
  The event loop runs one job at a time, so the settlements of the promises of one run
  are totally ordered. A promise is modelled by what becomes of it: it stays pending for
  ever, or it settles, fulfilled with a value or rejected with a reason, at some position
  of that order. Position \<open>0\<close> is a promise that is settled already when it is handed over.
\<close>

datatype 'a outcome = Fulfilled 'a | Rejected jsval

datatype 'a promise = Pending | Settled nat "'a outcome"

text \<open>
  \<open>Promise.race\<close> subscribes to its elements from left to right and settles like the one
  whose reaction runs first: the earliest settlement, and the leftmost of those that are
  settled at the same position.
\<close>

fun first_settled :: "'a promise \<Rightarrow> 'a promise \<Rightarrow> 'a promise" where
  "first_settled Pending q = q"
| "first_settled p Pending = p"
| "first_settled (Settled i a) (Settled j b) = (if j < i then Settled j b else Settled i a)"

definition Promise_race :: "'a promise list \<Rightarrow> 'a promise" where
  "Promise_race ps = foldl first_settled Pending ps"

text \<open>
  \<open>Promise.all\<close> rejects with the first rejection among its elements, whatever the others
  do; without a rejection it fulfils once every element is fulfilled, with the values in
  the order of the elements, and stays pending if one of them does.
\<close>

fun all_step :: "'a promise \<Rightarrow> 'a list promise \<Rightarrow> 'a list promise" where
  "all_step (Settled i (Rejected e)) (Settled j (Rejected e')) =
     (if j < i then Settled j (Rejected e') else Settled i (Rejected e))"
| "all_step (Settled i (Rejected e)) _ = Settled i (Rejected e)"
| "all_step _ (Settled j (Rejected e')) = Settled j (Rejected e')"
| "all_step Pending _ = Pending"
| "all_step _ Pending = Pending"
| "all_step (Settled i (Fulfilled x)) (Settled j (Fulfilled xs)) =
     Settled (max i j) (Fulfilled (x # xs))"

fun Promise_all :: "'a promise list \<Rightarrow> 'a list promise" where
  "Promise_all [] = Settled 0 (Fulfilled [])"
| "Promise_all (p # ps) = all_step p (Promise_all ps)"

text \<open>
  \<open>asyncValidate\<close> calls every validator on the value, in order, and returns what
  \<open>await Promise.all\<close> of the promises gives: its value, or its rejection thrown on.
\<close>

definition asyncValidate ::
  "jsnum option \<Rightarrow> (jsnum option \<Rightarrow> ValidationResult promise) list
     \<Rightarrow> ValidationResult list promise" where
  "asyncValidate v validators = Promise_all (map (\<lambda>validator. validator v) validators)"

section \<open>The asynchronous check\<close>

text \<open>A call of the callback throws before it returns, or returns its promise.\<close>

datatype 'a call = Throws jsval | Returns 'a

record CheckAsyncArgumentsType =
  callback :: "jsnum \<Rightarrow> unit promise call"
  timeout :: "jsnum option"

text \<open>\<open>Number(value)\<close> of a \<open>number | null\<close>: \<open>null\<close> becomes \<open>0\<close>.\<close>

definition Number_of :: "jsnum option \<Rightarrow> jsnum" where
  "Number_of v = (case v of None \<Rightarrow> Fin 0 | Some n \<Rightarrow> n)"

text \<open>The handler's \<open>e instanceof Error ? e.message : null\<close>.\<close>

definition catch_message :: "jsval \<Rightarrow> string option" where
  "catch_message e = (case e of JError m \<Rightarrow> Some m | _ \<Rightarrow> None)"

text \<open>The local variable \<open>timer\<close>: \<open>null\<close>, a handle that is scheduled, or one that was cleared.\<close>

datatype timer = NoTimer | Scheduled | Cleared

fun clearTimeout :: "timer \<Rightarrow> timer" where
  "clearTimeout NoTimer = NoTimer"
| "clearTimeout _ = Cleared"

record checkAsync_run =
  returned :: "ValidationResult promise"
  timer :: timer

text \<open>
  One call of the predicate that \<open>checkAsync\<close> builds. The timer is the host's: \<open>fires\<close>
  is the position at which it runs its handler if it is scheduled and not cleared before.
  The promise of the timeout only ever rejects, and only if a timeout was given. The
  \<open>try\<close> block covers the call of the callback and the \<open>await\<close> of the race; both handlers
  return a result, so the promise of the predicate fulfils whenever the race settles, at
  that position, and the \<open>finally\<close> block has cleared the timer by then.
\<close>

definition checkAsync :: "CheckAsyncArgumentsType \<Rightarrow> nat \<Rightarrow> jsnum option \<Rightarrow> checkAsync_run" where
  "checkAsync args fires v =
     (let timer0 = (case timeout args of None \<Rightarrow> NoTimer | Some ms \<Rightarrow> Scheduled);
          timeoutPromise =
            (case timeout args of
               None \<Rightarrow> Pending
             | Some ms \<Rightarrow> Settled fires (Rejected (JError ''Timeout'')))
      in case callback args (Number_of v) of
           Throws e \<Rightarrow>
             \<lparr>returned = Settled 0 (Fulfilled \<lparr>isValid = False, message = catch_message e\<rparr>),
              timer = clearTimeout timer0\<rparr>
         | Returns p \<Rightarrow>
             (case Promise_race [p, timeoutPromise] of
                Pending \<Rightarrow> \<lparr>returned = Pending, timer = timer0\<rparr>
              | Settled k (Fulfilled u) \<Rightarrow>
                  \<lparr>returned = Settled k (Fulfilled \<lparr>isValid = True, message = None\<rparr>),
                   timer = clearTimeout timer0\<rparr>
              | Settled k (Rejected e) \<Rightarrow>
                  \<lparr>returned = Settled k (Fulfilled \<lparr>isValid = False, message = catch_message e\<rparr>),
                   timer = clearTimeout timer0\<rparr>))"

section \<open>The reporter\<close>

record StdoutReporter =
  result :: "ValidationResult list"

definition StdoutReporter_isValid :: "StdoutReporter \<Rightarrow> bool" where
  "StdoutReporter_isValid this = list_all (\<lambda>res. isValid res) (result this)"

definition pickInvalid :: "StdoutReporter \<Rightarrow> ValidationResult list" where
  "pickInvalid this = filter (\<lambda>res. \<not> isValid res) (result this)"

definition pickValid :: "StdoutReporter \<Rightarrow> ValidationResult list" where
  "pickValid this = filter (\<lambda>res. isValid res) (result this)"

text \<open>
  The line that \<open>report\<close> logs for the result at \<open>index\<close>. An array index is a
  non-negative integer, which interpolates as its decimal digits.
\<close>

definition report_line :: "nat \<Rightarrow> ValidationResult \<Rightarrow> string" where
  "report_line index res =
     ''[#'' @ show_nat index @ ''][ '' @ (if isValid res then ''valid'' else ''invalid'')
       @ '' ] | '' @ interpolate_message (message res)"

text \<open>
  Standard output is the text written so far; \<open>console.log\<close> appends its argument and a
  line feed.
\<close>

definition console_log :: "string \<Rightarrow> string \<Rightarrow> string" where
  "console_log s out = out @ s @ [CHR 0x0A]"

text \<open>\<open>forEach\<close> with its running index.\<close>

fun forEach_log :: "nat \<Rightarrow> ValidationResult list \<Rightarrow> string \<Rightarrow> string" where
  "forEach_log index [] out = out"
| "forEach_log index (res # rest) out =
     forEach_log (Suc index) rest (console_log (report_line index res) out)"

definition report :: "StdoutReporter \<Rightarrow> string \<Rightarrow> string" where
  "report this out = forEach_log 0 (result this) out"

text \<open>
  The lines of a text, to say what a reader of standard output sees: a line ends at a
  line feed, and text after the last line feed is a line too.
\<close>

fun lines_of :: "string \<Rightarrow> string list" where
  "lines_of [] = []"
| "lines_of (c # cs) =
     (if c = CHR 0x0A then [] # lines_of cs
      else (case lines_of cs of [] \<Rightarrow> [[c]] | l # ls \<Rightarrow> (c # l) # ls))"

section \<open>Validators and callbacks used as examples\<close>

text \<open>The promise of one call of a predicate built by \<open>checkAsync\<close>, as an async validator.\<close>

definition checkAsync_promise ::
  "CheckAsyncArgumentsType \<Rightarrow> nat \<Rightarrow> jsnum option \<Rightarrow> ValidationResult promise" where
  "checkAsync_promise args fires v = returned (checkAsync args fires v)"

text \<open>Callbacks whose promise fulfils at a position, rejects at a position, or never settles.\<close>

definition resolves_at :: "nat \<Rightarrow> jsnum \<Rightarrow> unit promise call" where
  "resolves_at k n = Returns (Settled k (Fulfilled ()))"

definition rejects_at :: "nat \<Rightarrow> jsval \<Rightarrow> jsnum \<Rightarrow> unit promise call" where
  "rejects_at k e n = Returns (Settled k (Rejected e))"

definition never_settles :: "jsnum \<Rightarrow> unit promise call" where
  "never_settles n = Returns Pending"

text \<open>
  The digits the host prints for two numbers beyond \<open>2^53\<close>, \<open>2^60\<close> and \<open>2^64\<close>, and
  nothing elsewhere: enough of \<open>shortest\<close> for the examples that use those bounds.
\<close>

definition shortest_examples :: "rat \<Rightarrow> string" where
  "shortest_examples q =
     (if q = 1152921504606846976 then ''1152921504606847000''
      else if q = 18446744073709551616 then ''18446744073709552000''
      else [])"

text \<open>An async validator, not built by \<open>checkAsync\<close>, whose promise rejects.\<close>

definition rejecting_validator :: "jsnum option \<Rightarrow> ValidationResult promise" where
  "rejecting_validator v = Settled 1 (Rejected (JError ''unavailable''))"

section \<open>Properties of the synchronous checks\<close>

lemma typeof_number_iff: "typeof v = ''number'' \<longleftrightarrow> (\<exists>n. v = JNum n)"
  by (cases v) simp_all

lemma typeof_string_iff: "typeof v = ''string'' \<longleftrightarrow> (\<exists>s. v = JStr s)"
  by (cases v) simp_all

lemma js_ge_le: "js_ge a b = js_le b a"
  by (simp add: js_ge_def js_le_def)

lemma js_le_Fin: "js_le (Fin x) (Fin y) \<longleftrightarrow> x \<le> y"
  by (simp add: js_le_def not_less)

lemma js_le_NaN: "\<not> js_le NaN b" "\<not> js_le a NaN"
  by (cases b; simp add: js_le_def) (cases a; simp add: js_le_def)

text \<open>
  Claim C5. For every value and either target type, \<open>checkType\<close> gives a valid result
  exactly when \<open>typeof\<close> of the value is the target type, with no message then, and
  otherwise the message \<open>Value is not a {targetType}\<close>. A value that is neither a string
  nor a number fails for both target types.
\<close>

theorem checkType_spec:
  "isValid (checkType t v) = (typeof v = targetType_str t)
   \<and> (typeof v = targetType_str t \<longrightarrow> message (checkType t v) = None)
   \<and> (typeof v \<noteq> targetType_str t \<longrightarrow>
        message (checkType t v) = Some (''Value is not a '' @ targetType_str t))
   \<and> ((\<forall>s. v \<noteq> JStr s) \<and> (\<forall>n. v \<noteq> JNum n) \<longrightarrow>
        checkType t v = \<lparr>isValid = False, message = Some (''Value is not a '' @ targetType_str t)\<rparr>)"
proof -
  have "(\<forall>s. v \<noteq> JStr s) \<and> (\<forall>n. v \<noteq> JNum n) \<Longrightarrow> typeof v \<noteq> targetType_str t"
    by (cases t) (simp_all add: typeof_number_iff typeof_string_iff)
  then show ?thesis
    by (auto simp add: checkType_def)
qed

theorem checkType_spec_witness:
  "typeof JNull \<noteq> targetType_str TNumber
   \<and> checkType TNumber JNull = \<lparr>isValid = False, message = Some ''Value is not a number''\<rparr>
   \<and> typeof (JStr ''abc'') = targetType_str TString
   \<and> checkType TString (JStr ''abc'') = \<lparr>isValid = True, message = None\<rparr>"
  using checkType_spec [of TNumber JNull] checkType_spec [of TString "JStr ''abc''"]
  by (simp add: checkType_def)

lemma Number_toString_safe_integer:
  "\<bar>a\<bar> < 9007199254740992 \<Longrightarrow> Number_toString sh (Fin (of_int a)) = show_int a"
proof -
  assume "\<bar>a\<bar> < 9007199254740992"
  then have "\<bar>of_int a :: rat\<bar> < of_int 9007199254740992"
    unfolding of_int_abs [symmetric] of_int_less_iff .
  then show ?thesis
    by (simp add: Number_toString_def)
qed

lemma Number_toString_beyond:
  "9007199254740992 \<le> \<bar>q\<bar> \<Longrightarrow> Number_toString sh (Fin q) = sh q"
  by (simp add: Number_toString_def)

text \<open>
  Claim C4. A value whose \<open>typeof\<close> is not \<open>number\<close> gets the invalid result with the
  message \<open>Value is not a number\<close>, whatever the bounds are. A number gets a valid result
  exactly when \<open>min <= value\<close> and \<open>value <= max\<close> hold, both bounds included, with no
  message then, and otherwise the message \<open>Value should be between {min} and {max}\<close>.
  On finite numbers the two comparisons are the order of the rationals. With integer
  bounds below \<open>2^53\<close> in magnitude, \<open>{min}\<close> and \<open>{max}\<close> are their decimal digits; for
  other bounds they are the digits the host prints.
\<close>

theorem checkNumberValue_spec:
  "(typeof v \<noteq> ''number'' \<longrightarrow>
      checkNumberValue sh mn mx v = \<lparr>isValid = False, message = Some ''Value is not a number''\<rparr>)
   \<and> (\<forall>n. v = JNum n \<longrightarrow>
        isValid (checkNumberValue sh mn mx v) = (js_le mn n \<and> js_le n mx)
        \<and> (js_le mn n \<and> js_le n mx \<longrightarrow> message (checkNumberValue sh mn mx v) = None)
        \<and> (\<not> (js_le mn n \<and> js_le n mx) \<longrightarrow>
             message (checkNumberValue sh mn mx v) =
               Some (''Value should be between '' @ Number_toString sh mn @ '' and ''
                     @ Number_toString sh mx)))
   \<and> (\<forall>a x b. mn = Fin a \<and> v = JNum (Fin x) \<and> mx = Fin b \<longrightarrow>
        isValid (checkNumberValue sh mn mx v) = (a \<le> x \<and> x \<le> b))
   \<and> (\<forall>a b n. mn = Fin (of_int a) \<and> mx = Fin (of_int b)
          \<and> \<bar>a\<bar> < 9007199254740992 \<and> \<bar>b\<bar> < 9007199254740992
          \<and> v = JNum n \<and> \<not> (js_le mn n \<and> js_le n mx) \<longrightarrow>
        message (checkNumberValue sh mn mx v) =
          Some (''Value should be between '' @ show_int a @ '' and '' @ show_int b))"
proof (intro conjI allI impI)
  assume "typeof v \<noteq> ''number''"
  then show "checkNumberValue sh mn mx v = \<lparr>isValid = False, message = Some ''Value is not a number''\<rparr>"
    by (cases v) (simp_all add: checkNumberValue_def)
next
  fix n assume "v = JNum n"
  then show "isValid (checkNumberValue sh mn mx v) = (js_le mn n \<and> js_le n mx)"
    by (simp add: checkNumberValue_def Let_def js_ge_le)
next
  fix n assume "v = JNum n" "js_le mn n \<and> js_le n mx"
  then show "message (checkNumberValue sh mn mx v) = None"
    by (simp add: checkNumberValue_def Let_def js_ge_le)
next
  fix n assume "v = JNum n" "\<not> (js_le mn n \<and> js_le n mx)"
  then show "message (checkNumberValue sh mn mx v) =
               Some (''Value should be between '' @ Number_toString sh mn @ '' and ''
                     @ Number_toString sh mx)"
    by (simp add: checkNumberValue_def Let_def js_ge_le)
next
  fix a x b assume "mn = Fin a \<and> v = JNum (Fin x) \<and> mx = Fin b"
  then show "isValid (checkNumberValue sh mn mx v) = (a \<le> x \<and> x \<le> b)"
    by (simp add: checkNumberValue_def Let_def js_ge_le js_le_Fin)
next
  fix a b n
  assume h: "mn = Fin (of_int a) \<and> mx = Fin (of_int b)
          \<and> \<bar>a\<bar> < 9007199254740992 \<and> \<bar>b\<bar> < 9007199254740992
          \<and> v = JNum n \<and> \<not> (js_le mn n \<and> js_le n mx)"
  then have "Number_toString sh mn = show_int a" "Number_toString sh mx = show_int b"
    by (simp_all add: Number_toString_safe_integer)
  then show "message (checkNumberValue sh mn mx v) =
          Some (''Value should be between '' @ show_int a @ '' and '' @ show_int b)"
    using h by (auto simp add: checkNumberValue_def Let_def js_ge_le)
qed

theorem checkNumberValue_spec_witness:
  "typeof (JStr ''5'') \<noteq> ''number''
   \<and> checkNumberValue shortest_examples (Fin 1) (Fin 10) (JStr ''5'')
       = \<lparr>isValid = False, message = Some ''Value is not a number''\<rparr>
   \<and> js_le (Fin 1) (Fin 10) \<and> js_le (Fin 10) (Fin 10)
   \<and> checkNumberValue shortest_examples (Fin 1) (Fin 10) (JNum (Fin 10))
       = \<lparr>isValid = True, message = None\<rparr>
   \<and> \<not> (js_le (Fin 1) (Fin 11) \<and> js_le (Fin 11) (Fin 10))
   \<and> checkNumberValue shortest_examples (Fin 1) (Fin 10) (JNum (Fin 11))
       = \<lparr>isValid = False, message = Some ''Value should be between 1 and 10''\<rparr>
   \<and> \<not> (js_le (Fin 0) (Fin (- 1)) \<and> js_le (Fin (- 1)) (Fin 18446744073709551616))
   \<and> checkNumberValue shortest_examples (Fin 0) (Fin 18446744073709551616) (JNum (Fin (- 1)))
       = \<lparr>isValid = False,
          message = Some ''Value should be between 0 and 18446744073709552000''\<rparr>"
  using checkNumberValue_spec [of "JStr ''5''" shortest_examples "Fin 1" "Fin 10"]
    checkNumberValue_spec [of "JNum (Fin 10)" shortest_examples "Fin 1" "Fin 10"]
    checkNumberValue_spec [of "JNum (Fin 11)" shortest_examples "Fin 1" "Fin 10"]
    checkNumberValue_spec [of "JNum (Fin (- 1))" shortest_examples "Fin 0" "Fin 18446744073709551616"]
  by (simp add: checkNumberValue_def js_le_def js_ge_def Number_toString_def show_int_def
      show_nat.simps digit_char_def shortest_examples_def)

text \<open>
  Claim C10. For every pair of bounds, not-a-number gets the invalid result with the
  range message, not \<open>Value is not a number\<close>: its \<open>typeof\<close> is \<open>number\<close>, and both
  \<open>NaN >= min\<close> and \<open>NaN <= max\<close> are false.
\<close>

theorem checkNumberValue_NaN:
  "checkNumberValue sh mn mx (JNum NaN) =
     \<lparr>isValid = False,
      message = Some (''Value should be between '' @ Number_toString sh mn @ '' and ''
                      @ Number_toString sh mx)\<rparr>
   \<and> typeof (JNum NaN) = ''number''
   \<and> \<not> js_ge NaN mn \<and> \<not> js_le NaN mx"
  by (simp add: checkNumberValue_def Let_def js_ge_def js_le_NaN)

theorem checkNumberValue_NaN_witness:
  "checkNumberValue shortest_examples (Fin 1) (Fin 10) (JNum NaN)
     = \<lparr>isValid = False, message = Some ''Value should be between 1 and 10''\<rparr>
   \<and> checkNumberValue shortest_examples (Fin 0) (Fin 1152921504606846976) (JNum NaN)
     = \<lparr>isValid = False,
        message = Some ''Value should be between 0 and 1152921504606847000''\<rparr>
   \<and> checkNumberValue shortest_examples NegInf NaN (JNum NaN)
     = \<lparr>isValid = False, message = Some ''Value should be between -Infinity and NaN''\<rparr>"
  using checkNumberValue_NaN [of shortest_examples "Fin 1" "Fin 10"]
    checkNumberValue_NaN [of shortest_examples "Fin 0" "Fin 1152921504606846976"]
    checkNumberValue_NaN [of shortest_examples NegInf NaN]
  by (simp add: Number_toString_def show_int_def show_nat.simps digit_char_def
      shortest_examples_def)

section \<open>Properties of the synchronous runner and of the reporter\<close>

lemma digit_char_value: "d < 10 \<Longrightarrow> of_char (digit_char d) = 48 + d"
proof -
  assume "d < 10"
  then have "d \<in> {0, 1, 2, 3, 4, 5, 6, 7, 8, 9}" by auto
  then show ?thesis by (auto simp add: digit_char_def)
qed

lemma read_nat_show_nat: "read_nat (show_nat n) = n"
proof (induction n rule: show_nat.induct)
  case (1 n)
  show ?case
  proof (cases "n < 10")
    case True
    then show ?thesis
      by (simp add: show_nat.simps [of n] read_nat_def digit_char_value)
  next
    case False
    then have "read_nat (show_nat (n div 10)) = n div 10" using 1 by simp
    moreover have "n mod 10 < 10" by simp
    ultimately show ?thesis using False
      by (simp add: show_nat.simps [of n] read_nat_def digit_char_value)
  qed
qed

lemma filter_by_index:
  "filter P xs = map (\<lambda>i. xs ! i) (filter (\<lambda>i. P (xs ! i)) [0..<length xs])"
proof -
  have "filter P xs = filter P (map (\<lambda>i. xs ! i) [0..<length xs])"
    by (simp add: map_nth)
  also have "\<dots> = map (\<lambda>i. xs ! i) (filter (\<lambda>i. P (xs ! i)) [0..<length xs])"
    by (simp add: filter_map comp_def)
  finally show ?thesis .
qed

text \<open>
  Claim C7. For every value and every list of synchronous validators, \<open>syncValidate\<close>
  returns a list as long as the list of validators, whose element at each index is the
  validator at that index applied to the value.
\<close>

theorem syncValidate_spec:
  "length (syncValidate v validators) = length validators
   \<and> (\<forall>i < length validators. syncValidate v validators ! i = (validators ! i) v)"
  by (simp add: syncValidate_def)

theorem syncValidate_spec_witness:
  "length (syncValidate (JNum (Fin 5)) [checkType TString, checkType TNumber, checkNumberValue shortest_examples (Fin 1) (Fin 3)]) = 3
   \<and> (1::nat) < length [checkType TString, checkType TNumber, checkNumberValue shortest_examples (Fin 1) (Fin 3)]
   \<and> syncValidate (JNum (Fin 5)) [checkType TString, checkType TNumber, checkNumberValue shortest_examples (Fin 1) (Fin 3)] ! 1
       = \<lparr>isValid = True, message = None\<rparr>"
  using syncValidate_spec [of "JNum (Fin 5)" "[checkType TString, checkType TNumber, checkNumberValue shortest_examples (Fin 1) (Fin 3)]"]
  by (simp add: checkType_def)

text \<open>
  Claim C8. For every batch held by a reporter: \<open>isValid()\<close> is true exactly when every
  result of the batch is valid, and is true for the empty batch; \<open>pickInvalid()\<close> is the
  results at the positions whose result is invalid, and \<open>pickValid()\<close> the results at
  the positions whose result is valid, each in increasing order of position, so each is
  a subsequence of the batch holding exactly the invalid, respectively valid, results.
\<close>

theorem StdoutReporter_spec:
  "StdoutReporter_isValid this = (\<forall>res \<in> set (result this). isValid res)
   \<and> StdoutReporter_isValid \<lparr>result = []\<rparr>
   \<and> pickInvalid this =
       map (\<lambda>i. result this ! i) (filter (\<lambda>i. \<not> isValid (result this ! i)) [0..<length (result this)])
   \<and> pickValid this =
       map (\<lambda>i. result this ! i) (filter (\<lambda>i. isValid (result this ! i)) [0..<length (result this)])
   \<and> set (pickInvalid this) = {res \<in> set (result this). \<not> isValid res}
   \<and> set (pickValid this) = {res \<in> set (result this). isValid res}
   \<and> subseq (pickInvalid this) (result this)
   \<and> subseq (pickValid this) (result this)"
proof (intro conjI)
  show "StdoutReporter_isValid this = (\<forall>res \<in> set (result this). isValid res)"
    by (simp add: StdoutReporter_isValid_def list_all_iff)
  show "StdoutReporter_isValid \<lparr>result = []\<rparr>"
    by (simp add: StdoutReporter_isValid_def)
  show "pickInvalid this =
       map (\<lambda>i. result this ! i) (filter (\<lambda>i. \<not> isValid (result this ! i)) [0..<length (result this)])"
    unfolding pickInvalid_def by (rule filter_by_index)
  show "pickValid this =
       map (\<lambda>i. result this ! i) (filter (\<lambda>i. isValid (result this ! i)) [0..<length (result this)])"
    unfolding pickValid_def by (rule filter_by_index)
  show "set (pickInvalid this) = {res \<in> set (result this). \<not> isValid res}"
    by (simp add: pickInvalid_def)
  show "set (pickValid this) = {res \<in> set (result this). isValid res}"
    by (simp add: pickValid_def)
  show "subseq (pickInvalid this) (result this)"
    by (simp add: pickInvalid_def)
  show "subseq (pickValid this) (result this)"
    by (simp add: pickValid_def)
qed

theorem StdoutReporter_spec_witness:
  "\<not> StdoutReporter_isValid
       \<lparr>result = [\<lparr>isValid = True, message = None\<rparr>, \<lparr>isValid = False, message = Some ''bad''\<rparr>]\<rparr>
   \<and> pickInvalid \<lparr>result = [\<lparr>isValid = True, message = None\<rparr>, \<lparr>isValid = False, message = Some ''bad''\<rparr>]\<rparr>
       = [\<lparr>isValid = False, message = Some ''bad''\<rparr>]
   \<and> pickValid \<lparr>result = [\<lparr>isValid = True, message = None\<rparr>, \<lparr>isValid = False, message = Some ''bad''\<rparr>]\<rparr>
       = [\<lparr>isValid = True, message = None\<rparr>]"
  using StdoutReporter_spec
    [of "\<lparr>result = [\<lparr>isValid = True, message = None\<rparr>, \<lparr>isValid = False, message = Some ''bad''\<rparr>]\<rparr>"]
  by (simp add: upt_conv_Cons)

lemma forEach_log_text:
  "forEach_log k rs out =
     out @ concat (map (\<lambda>i. report_line (k + i) (rs ! i) @ [CHR 0x0A]) [0..<length rs])"
proof (induction rs arbitrary: k out)
  case Nil
  show ?case by simp
next
  case (Cons r rs)
  have "[0..<length (r # rs)] = 0 # map Suc [0..<length rs]"
    by (simp add: upt_conv_Cons map_Suc_upt del: upt_Suc)
  then show ?case
    by (simp add: Cons.IH console_log_def comp_def del: upt_Suc)
qed

lemma lines_of_line:
  "CHR 0x0A \<notin> set l \<Longrightarrow> lines_of (l @ CHR 0x0A # rest) = l # lines_of rest"
  by (induction l) auto

lemma lines_of_concat:
  "\<forall>l \<in> set ls. CHR 0x0A \<notin> set l \<Longrightarrow> lines_of (concat (map (\<lambda>l. l @ [CHR 0x0A]) ls)) = ls"
  by (induction ls) (simp_all add: lines_of_line)

lemma digit_char_no_line_feed: "d < 10 \<Longrightarrow> digit_char d \<noteq> CHR 0x0A"
proof -
  assume "d < 10"
  then have "d \<in> {0, 1, 2, 3, 4, 5, 6, 7, 8, 9}" by auto
  then show ?thesis by (auto simp add: digit_char_def)
qed

lemma show_nat_no_line_feed: "CHR 0x0A \<notin> set (show_nat n)"
proof (induction n rule: show_nat.induct)
  case (1 n)
  show ?case
  proof (cases "n < 10")
    case True
    then show ?thesis
      using digit_char_no_line_feed [of n] by (auto simp add: show_nat.simps [of n])
  next
    case False
    moreover have "n mod 10 < 10" by simp
    ultimately show ?thesis
      using 1 digit_char_no_line_feed [of "n mod 10"] by (auto simp add: show_nat.simps [of n])
  qed
qed

lemma report_line_no_line_feed:
  "\<forall>m. message res = Some m \<longrightarrow> CHR 0x0A \<notin> set m \<Longrightarrow> CHR 0x0A \<notin> set (report_line i res)"
  by (cases "message res")
    (simp_all add: report_line_def interpolate_message_def show_nat_no_line_feed)

text \<open>
  Claim C9, amended. For every batch, \<open>report()\<close> appends to standard output, for each
  result in the order of the batch, the text \<open>[#i][ valid ] | message\<close> or
  \<open>[#i][ invalid ] | message\<close> followed by a line feed, where \<open>i\<close> is the position of the
  result, counted from zero and written in decimal digits, and an absent message is
  written as \<open>null\<close>. If no message of the batch contains a line feed, that text is
  exactly one line for each result, in that format.
\<close>

theorem report_spec:
  "report this out =
     out @ concat (map (\<lambda>i. ''[#'' @ show_nat i @ ''][ ''
                             @ (if isValid (result this ! i) then ''valid'' else ''invalid'')
                             @ '' ] | ''
                             @ (case message (result this ! i) of None \<Rightarrow> ''null'' | Some m \<Rightarrow> m)
                             @ [CHR 0x0A])
                      [0..<length (result this)])
   \<and> ((\<forall>res \<in> set (result this). \<forall>m. message res = Some m \<longrightarrow> CHR 0x0A \<notin> set m) \<longrightarrow>
        lines_of (report this []) =
          map (\<lambda>i. ''[#'' @ show_nat i @ ''][ ''
                    @ (if isValid (result this ! i) then ''valid'' else ''invalid'')
                    @ '' ] | ''
                    @ (case message (result this ! i) of None \<Rightarrow> ''null'' | Some m \<Rightarrow> m))
              [0..<length (result this)]
        \<and> length (lines_of (report this [])) = length (result this))
   \<and> (\<forall>i. read_nat (show_nat i) = i)"
proof (intro conjI impI allI)
  show "report this out =
     out @ concat (map (\<lambda>i. ''[#'' @ show_nat i @ ''][ ''
                             @ (if isValid (result this ! i) then ''valid'' else ''invalid'')
                             @ '' ] | ''
                             @ (case message (result this ! i) of None \<Rightarrow> ''null'' | Some m \<Rightarrow> m)
                             @ [CHR 0x0A])
                      [0..<length (result this)])"
    by (simp add: report_def forEach_log_text report_line_def interpolate_message_def)
next
  assume clean: "\<forall>res \<in> set (result this). \<forall>m. message res = Some m \<longrightarrow> CHR 0x0A \<notin> set m"
  let ?ls = "map (\<lambda>i. report_line i (result this ! i)) [0..<length (result this)]"
  have "\<forall>l \<in> set ?ls. CHR 0x0A \<notin> set l"
    using clean by (auto intro!: report_line_no_line_feed)
  then have "lines_of (concat (map (\<lambda>l. l @ [CHR 0x0A]) ?ls)) = ?ls"
    by (rule lines_of_concat)
  moreover have "report this [] = concat (map (\<lambda>l. l @ [CHR 0x0A]) ?ls)"
    by (simp add: report_def forEach_log_text comp_def)
  ultimately have eq: "lines_of (report this []) = ?ls" by simp
  show "lines_of (report this []) =
          map (\<lambda>i. ''[#'' @ show_nat i @ ''][ ''
                    @ (if isValid (result this ! i) then ''valid'' else ''invalid'')
                    @ '' ] | ''
                    @ (case message (result this ! i) of None \<Rightarrow> ''null'' | Some m \<Rightarrow> m))
              [0..<length (result this)]"
    unfolding eq by (simp add: report_line_def interpolate_message_def)
  show "length (lines_of (report this [])) = length (result this)"
    unfolding eq by simp
next
  fix i show "read_nat (show_nat i) = i" by (rule read_nat_show_nat)
qed

theorem report_spec_witness:
  "CHR 0x0A \<notin> set ''bad''
   \<and> report \<lparr>result = [\<lparr>isValid = True, message = None\<rparr>, \<lparr>isValid = False, message = Some ''bad''\<rparr>]\<rparr> []
       = ''[#0][ valid ] | null'' @ [CHR 0x0A] @ ''[#1][ invalid ] | bad'' @ [CHR 0x0A]
   \<and> lines_of (report \<lparr>result = [\<lparr>isValid = True, message = None\<rparr>,
                                  \<lparr>isValid = False, message = Some ''bad''\<rparr>]\<rparr> [])
       = [''[#0][ valid ] | null'', ''[#1][ invalid ] | bad'']"
  using report_spec
    [of "\<lparr>result = [\<lparr>isValid = True, message = None\<rparr>, \<lparr>isValid = False, message = Some ''bad''\<rparr>]\<rparr>" "[]"]
  by (simp add: upt_conv_Cons show_nat.simps digit_char_def)

text \<open>
  As stated for every batch, C9 fails: a result whose message contains a line feed is
  written as two lines, and the second is not in the format.
\<close>

theorem report_counterexample:
  "lines_of (report \<lparr>result = [\<lparr>isValid = False, message = Some (''a'' @ [CHR 0x0A] @ ''b'')\<rparr>]\<rparr> [])
     = [''[#0][ invalid ] | a'', ''b'']
   \<and> length (lines_of (report
        \<lparr>result = [\<lparr>isValid = False, message = Some (''a'' @ [CHR 0x0A] @ ''b'')\<rparr>]\<rparr> [])) = 2
   \<and> length (result \<lparr>result = [\<lparr>isValid = False, message = Some (''a'' @ [CHR 0x0A] @ ''b'')\<rparr>]\<rparr>) = 1"
  by (simp add: report_def console_log_def report_line_def interpolate_message_def
      show_nat.simps digit_char_def)

section \<open>Properties of the asynchronous check\<close>

lemma catch_message_Error: "catch_message (JError m) = Some m"
  by (simp add: catch_message_def)

lemma catch_message_other: "\<not> instanceof_Error e \<Longrightarrow> catch_message e = None"
  by (cases e) (simp_all add: catch_message_def)

lemma catch_message_None_iff: "catch_message e = None \<longleftrightarrow> \<not> instanceof_Error e"
  by (cases e) (simp_all add: catch_message_def)

lemma race_callback_first:
  "k \<le> fires \<Longrightarrow> Promise_race [Settled k a, Settled fires b] = Settled k a"
  by (simp add: Promise_race_def)

lemma race_no_timer: "Promise_race [p, Pending] = p"
  by (cases p) (simp_all add: Promise_race_def)

lemma race_timer_first:
  "(case p of Pending \<Rightarrow> True | Settled k a \<Rightarrow> fires < k) \<Longrightarrow>
   Promise_race [p, Settled fires b] = Settled fires b"
  by (cases p) (simp_all add: Promise_race_def)

lemma checkAsync_never_rejects: "returned (checkAsync args fires v) \<noteq> Settled k (Rejected e)"
  by (simp add: checkAsync_def Let_def split: call.split promise.split outcome.split)

lemma checkAsync_timer_released:
  "returned (checkAsync args fires v) \<noteq> Pending \<Longrightarrow> timer (checkAsync args fires v) \<noteq> Scheduled"
  by (auto simp add: checkAsync_def Let_def split: call.splits promise.splits outcome.splits option.splits)

text \<open>
  Claim C2, amended. For every callback and every input value: if the promise of the
  callback rejects, and does so before the timer fires when a timeout was given, the
  predicate fulfils, at that moment, with an invalid result. Its message is the message
  of the rejection's reason when the reason is an \<open>Error\<close> instance, and is absent for
  every other reason, a plain string included. The promise of the predicate does not
  reject.
\<close>

theorem checkAsync_callback_rejects:
  assumes "callback args (Number_of v) = Returns (Settled k (Rejected e))"
    and "timeout args \<noteq> None \<longrightarrow> k < fires"
  shows "(\<exists>r. returned (checkAsync args fires v) = Settled k (Fulfilled r) \<and> \<not> isValid r)
         \<and> (\<forall>m. e = JError m \<longrightarrow>
               returned (checkAsync args fires v) =
                 Settled k (Fulfilled \<lparr>isValid = False, message = Some m\<rparr>))
         \<and> (\<not> instanceof_Error e \<longrightarrow>
               returned (checkAsync args fires v) =
                 Settled k (Fulfilled \<lparr>isValid = False, message = None\<rparr>))
         \<and> (\<forall>s. e = JStr s \<longrightarrow>
               returned (checkAsync args fires v) =
                 Settled k (Fulfilled \<lparr>isValid = False, message = None\<rparr>))
         \<and> (\<forall>j r. returned (checkAsync args fires v) \<noteq> Settled j (Rejected r))"
proof -
  have race: "Promise_race [Settled k (Rejected e),
                (case timeout args of None \<Rightarrow> Pending
                 | Some ms \<Rightarrow> Settled fires (Rejected (JError ''Timeout'')))]
              = Settled k (Rejected e)"
    using assms(2) by (cases "timeout args") (simp_all add: race_no_timer race_callback_first)
  have res: "returned (checkAsync args fires v) =
           Settled k (Fulfilled \<lparr>isValid = False, message = catch_message e\<rparr>)"
    by (simp add: checkAsync_def Let_def assms(1) race)
  show ?thesis
    using res checkAsync_never_rejects [of args fires v]
    by (auto simp add: catch_message_Error catch_message_other)
qed

theorem checkAsync_callback_rejects_witness:
  "returned (checkAsync \<lparr>callback = rejects_at 3 (JError ''boom''), timeout = Some (Fin 1000)\<rparr> 40 (Some (Fin 5)))
     = Settled 3 (Fulfilled \<lparr>isValid = False, message = Some ''boom''\<rparr>)
   \<and> returned (checkAsync \<lparr>callback = rejects_at 3 JUndefined, timeout = None\<rparr> 0 None)
     = Settled 3 (Fulfilled \<lparr>isValid = False, message = None\<rparr>)
   \<and> returned (checkAsync \<lparr>callback = rejects_at 3 (JStr ''boom''), timeout = Some (Fin 1000)\<rparr> 40 None)
     = Settled 3 (Fulfilled \<lparr>isValid = False, message = None\<rparr>)"
  using checkAsync_callback_rejects
      [of "\<lparr>callback = rejects_at 3 (JError ''boom''), timeout = Some (Fin 1000)\<rparr>" "Some (Fin 5)" 3 "JError ''boom''" 40]
    checkAsync_callback_rejects
      [of "\<lparr>callback = rejects_at 3 JUndefined, timeout = None\<rparr>" None 3 JUndefined 0]
    checkAsync_callback_rejects
      [of "\<lparr>callback = rejects_at 3 (JStr ''boom''), timeout = Some (Fin 1000)\<rparr>" None 3 "JStr ''boom''" 40]
  by (simp add: rejects_at_def)

text \<open>
  As stated, with the description a rejection carries read as the spec's example of a
  callback that rejects with \<open>boom\<close> reads it, C2 fails: for the string \<open>boom\<close> as the
  reason the result has no message, not the message \<open>boom\<close>.
\<close>

theorem checkAsync_callback_rejects_counterexample:
  "returned (checkAsync \<lparr>callback = rejects_at 1 (JStr ''boom''), timeout = None\<rparr> 0 (Some (Fin 5)))
     \<noteq> Settled 1 (Fulfilled \<lparr>isValid = False, message = Some ''boom''\<rparr>)
   \<and> returned (checkAsync \<lparr>callback = rejects_at 1 (JStr ''boom''), timeout = None\<rparr> 0 (Some (Fin 5)))
     = Settled 1 (Fulfilled \<lparr>isValid = False, message = None\<rparr>)"
  by (simp add: checkAsync_def rejects_at_def Promise_race_def catch_message_def)

text \<open>
  Claim C3. For every predicate built with a timeout: if the timer fires while the
  promise of the callback is still pending (it settles later or never), the predicate
  fulfils, when the timer fires, with the invalid result whose message is \<open>Timeout\<close>.
  The promise of the predicate does not reject.
\<close>

theorem checkAsync_timeout_first:
  assumes "timeout args = Some ms"
    and "callback args (Number_of v) = Returns p"
    and "case p of Pending \<Rightarrow> True | Settled k a \<Rightarrow> fires < k"
  shows "returned (checkAsync args fires v) =
           Settled fires (Fulfilled \<lparr>isValid = False, message = Some ''Timeout''\<rparr>)
         \<and> (\<forall>j r. returned (checkAsync args fires v) \<noteq> Settled j (Rejected r))"
proof -
  have "Promise_race [p, Settled fires (Rejected (JError ''Timeout''))]
          = Settled fires (Rejected (JError ''Timeout''))"
    using assms(3) by (rule race_timer_first)
  then show ?thesis
    by (simp add: checkAsync_def Let_def assms(1,2) catch_message_Error)
qed

theorem checkAsync_timeout_first_witness:
  "returned (checkAsync \<lparr>callback = resolves_at 1000, timeout = Some (Fin 10)\<rparr> 10 (Some (Fin 5)))
     = Settled 10 (Fulfilled \<lparr>isValid = False, message = Some ''Timeout''\<rparr>)
   \<and> returned (checkAsync \<lparr>callback = never_settles, timeout = Some (Fin 10)\<rparr> 10 None)
     = Settled 10 (Fulfilled \<lparr>isValid = False, message = Some ''Timeout''\<rparr>)"
  using checkAsync_timeout_first
      [of "\<lparr>callback = resolves_at 1000, timeout = Some (Fin 10)\<rparr>" "Fin 10" "Some (Fin 5)"
          "Settled 1000 (Fulfilled ())" 10]
    checkAsync_timeout_first
      [of "\<lparr>callback = never_settles, timeout = Some (Fin 10)\<rparr>" "Fin 10" None Pending 10]
  by (simp add: resolves_at_def never_settles_def)

section \<open>Properties of the asynchronous runner, and the invariant of the results\<close>

lemma Promise_all_fulfilled:
  "length ks = length ps \<Longrightarrow> length rs = length ps \<Longrightarrow>
   \<forall>i < length ps. ps ! i = Settled (ks ! i) (Fulfilled (rs ! i)) \<Longrightarrow>
   Promise_all ps = Settled (foldr max ks 0) (Fulfilled rs)"
proof (induction ps arbitrary: ks rs)
  case Nil
  then show ?case by simp
next
  case (Cons p ps)
  from Cons.prems obtain k ks' r rs' where ks: "ks = k # ks'" and rs: "rs = r # rs'"
    by (cases ks; cases rs) auto
  have p: "p = Settled k (Fulfilled r)"
    using Cons.prems(3) ks rs by auto
  have "\<forall>i < length ps. ps ! i = Settled (ks' ! i) (Fulfilled (rs' ! i))"
    using Cons.prems(3) ks rs by auto
  then have "Promise_all ps = Settled (foldr max ks' 0) (Fulfilled rs')"
    using Cons.IH [of ks' rs'] Cons.prems(1,2) ks rs by simp
  then show ?case
    by (simp add: p ks rs)
qed

lemma all_step_rejected_right: "\<exists>k e. all_step p (Settled j (Rejected e')) = Settled k (Rejected e)"
  by (cases "(p, Settled j (Rejected e') :: 'a list promise)" rule: all_step.cases) auto

lemma all_step_rejected_left: "\<exists>k' e'. all_step (Settled k (Rejected e)) q = Settled k' (Rejected e')"
  by (cases "(Settled k (Rejected e) :: 'a promise, q)" rule: all_step.cases) auto

lemma Promise_all_rejected:
  "Settled k e \<in> set ps \<Longrightarrow> e = Rejected r \<Longrightarrow> \<exists>k' r'. Promise_all ps = Settled k' (Rejected r')"
proof (induction ps)
  case Nil
  then show ?case by simp
next
  case (Cons p ps)
  show ?case
  proof (cases "p = Settled k e")
    case True
    then show ?thesis using Cons.prems(2) all_step_rejected_left by simp
  next
    case False
    then have "Settled k e \<in> set ps" using Cons.prems(1) by simp
    then obtain k' r' where "Promise_all ps = Settled k' (Rejected r')"
      using Cons.IH Cons.prems(2) by blast
    then show ?thesis using all_step_rejected_right by simp
  qed
qed

text \<open>
  Claim C6, amended. For every value and every list of async validators whose promises
  all fulfil, in whatever order, \<open>asyncValidate\<close> fulfils with the list of their results
  in the order of the validators, one for each validator. If the promise of some
  validator rejects, the promise of \<open>asyncValidate\<close> rejects.
\<close>

theorem asyncValidate_spec:
  "(length ks = length validators \<and> length rs = length validators
      \<and> (\<forall>i < length validators. (validators ! i) v = Settled (ks ! i) (Fulfilled (rs ! i)))
     \<longrightarrow> asyncValidate v validators = Settled (foldr max ks 0) (Fulfilled rs))
   \<and> ((\<exists>validator \<in> set validators. \<exists>k r. validator v = Settled k (Rejected r))
     \<longrightarrow> (\<exists>k r. asyncValidate v validators = Settled k (Rejected r)))"
proof (intro conjI impI)
  assume h: "length ks = length validators \<and> length rs = length validators
      \<and> (\<forall>i < length validators. (validators ! i) v = Settled (ks ! i) (Fulfilled (rs ! i)))"
  show "asyncValidate v validators = Settled (foldr max ks 0) (Fulfilled rs)"
    unfolding asyncValidate_def
    by (rule Promise_all_fulfilled) (simp_all add: h)
next
  assume "\<exists>validator \<in> set validators. \<exists>k r. validator v = Settled k (Rejected r)"
  then obtain validator k r where mem: "validator \<in> set validators"
    and rej: "validator v = Settled k (Rejected r)"
    by blast
  have "validator v \<in> (\<lambda>validator. validator v) ` set validators"
    using mem by (rule imageI)
  then have "Settled k (Rejected r) \<in> set (map (\<lambda>validator. validator v) validators)"
    by (simp add: rej)
  then show "\<exists>k r. asyncValidate v validators = Settled k (Rejected r)"
    unfolding asyncValidate_def by (rule Promise_all_rejected) simp
qed

theorem asyncValidate_spec_witness:
  "asyncValidate (Some (Fin 5))
     [checkAsync_promise \<lparr>callback = resolves_at 20, timeout = None\<rparr> 0,
      checkAsync_promise \<lparr>callback = rejects_at 10 (JError ''boom''), timeout = None\<rparr> 0]
   = Settled 20 (Fulfilled [\<lparr>isValid = True, message = None\<rparr>, \<lparr>isValid = False, message = Some ''boom''\<rparr>])
   \<and> rejecting_validator \<in> set [checkAsync_promise \<lparr>callback = resolves_at 20, timeout = None\<rparr> 0, rejecting_validator]
   \<and> (\<exists>k r. asyncValidate (Some (Fin 5))
        [checkAsync_promise \<lparr>callback = resolves_at 20, timeout = None\<rparr> 0, rejecting_validator]
        = Settled k (Rejected r))"
  using asyncValidate_spec
    [of "[20, 10]"
        "[checkAsync_promise \<lparr>callback = resolves_at 20, timeout = None\<rparr> 0,
          checkAsync_promise \<lparr>callback = rejects_at 10 (JError ''boom''), timeout = None\<rparr> 0]"
        "[\<lparr>isValid = True, message = None\<rparr>, \<lparr>isValid = False, message = Some ''boom''\<rparr>]"
        "Some (Fin 5)"]
    asyncValidate_spec
    [of "[]" "[checkAsync_promise \<lparr>callback = resolves_at 20, timeout = None\<rparr> 0, rejecting_validator]"
        "[]" "Some (Fin 5)"]
  by (simp add: checkAsync_promise_def checkAsync_def resolves_at_def rejects_at_def
      Promise_race_def catch_message_def rejecting_validator_def All_less_Suc2 numeral_2_eq_2)

text \<open>
  As stated for every list of async validators, C6 fails: with a validator whose promise
  rejects, \<open>asyncValidate\<close> rejects and yields no list.
\<close>

theorem asyncValidate_counterexample:
  "asyncValidate (Some (Fin 5)) [rejecting_validator] = Settled 1 (Rejected (JError ''unavailable''))"
  by (simp add: asyncValidate_def rejecting_validator_def)

lemma checkType_invariant: "isValid (checkType t v) \<longleftrightarrow> message (checkType t v) = None"
  by (simp add: checkType_def)

lemma checkNumberValue_invariant:
  "isValid (checkNumberValue sh mn mx v) \<longleftrightarrow> message (checkNumberValue sh mn mx v) = None"
  by (cases v) (simp_all add: checkNumberValue_def Let_def)

lemma checkStringLength_invariant:
  "isValid (checkStringLength sh mn mx v) \<longleftrightarrow> message (checkStringLength sh mn mx v) = None"
  by (cases v) (simp_all add: checkStringLength_def Let_def)

lemma checkAsync_results:
  "returned (checkAsync args fires w) = Settled k (Fulfilled r) \<Longrightarrow>
   r = \<lparr>isValid = True, message = None\<rparr>
   \<or> (\<exists>m. r = \<lparr>isValid = False, message = Some m\<rparr>)
   \<or> r = \<lparr>isValid = False, message = None\<rparr>
      \<and> (\<exists>e. \<not> instanceof_Error e
            \<and> (callback args (Number_of w) = Throws e
               \<or> (\<exists>j. callback args (Number_of w) = Returns (Settled j (Rejected e)))))"
proof (cases "callback args (Number_of w)")
  case (Throws e)
  assume "returned (checkAsync args fires w) = Settled k (Fulfilled r)"
  then have r: "r = \<lparr>isValid = False, message = catch_message e\<rparr>"
    by (simp add: checkAsync_def Let_def Throws)
  show ?thesis
  proof (cases "instanceof_Error e")
    case True
    then show ?thesis using r by (cases e) (simp_all add: catch_message_def)
  next
    case False
    then show ?thesis using r Throws by (auto simp add: catch_message_other)
  qed
next
  case (Returns p)
  assume a: "returned (checkAsync args fires w) = Settled k (Fulfilled r)"
  show ?thesis
  proof (cases "timeout args")
    case None
    then have "returned (checkAsync args fires w) =
        (case p of Pending \<Rightarrow> Pending
         | Settled j (Fulfilled u) \<Rightarrow> Settled j (Fulfilled \<lparr>isValid = True, message = None\<rparr>)
         | Settled j (Rejected e) \<Rightarrow> Settled j (Fulfilled \<lparr>isValid = False, message = catch_message e\<rparr>))"
      by (simp add: checkAsync_def Let_def Returns race_no_timer split: promise.split outcome.split)
    with a show ?thesis using Returns
      by (auto simp add: catch_message_def split: promise.splits outcome.splits jsval.splits)
  next
    case (Some ms)
    show ?thesis
    proof (cases p)
      case Pending
      then show ?thesis using a Some Returns
        by (auto simp add: checkAsync_def Let_def Promise_race_def catch_message_def)
    next
      case (Settled j oc)
      then show ?thesis using a Some Returns
        by (cases oc)
          (auto simp add: checkAsync_def Let_def Promise_race_def catch_message_def
            split: if_splits jsval.splits)
    qed
  qed
qed

text \<open>
  Claim C1, amended. Every result of \<open>checkType\<close>, \<open>checkNumberValue\<close> and
  \<open>checkStringLength\<close> is valid exactly when its message is absent. A valid result of
  \<open>checkAsync\<close> has no message, and an invalid result of \<open>checkAsync\<close> has a message
  unless the callback threw, or its promise rejected with, a value that is not an
  \<open>Error\<close> instance. \<open>pickValid\<close> and \<open>pickInvalid\<close> return results of the batch only.
\<close>

theorem validation_invariant:
  "(isValid (checkType t v) \<longleftrightarrow> message (checkType t v) = None)
   \<and> (isValid (checkNumberValue sh mn mx v) \<longleftrightarrow> message (checkNumberValue sh mn mx v) = None)
   \<and> (isValid (checkStringLength sh mn mx v) \<longleftrightarrow> message (checkStringLength sh mn mx v) = None)
   \<and> (\<forall>k r. returned (checkAsync args fires w) = Settled k (Fulfilled r) \<longrightarrow>
         (isValid r \<longrightarrow> message r = None)
         \<and> (message r = None \<and> \<not> isValid r \<longrightarrow>
              (\<exists>e. \<not> instanceof_Error e
                 \<and> (callback args (Number_of w) = Throws e
                    \<or> (\<exists>j. callback args (Number_of w) = Returns (Settled j (Rejected e)))))))
   \<and> set (pickValid this) \<subseteq> set (result this)
   \<and> set (pickInvalid this) \<subseteq> set (result this)"
proof (intro conjI allI impI)
  fix k r assume "returned (checkAsync args fires w) = Settled k (Fulfilled r)"
  from checkAsync_results [OF this] show "isValid r \<Longrightarrow> message r = None" by auto
next
  fix k r assume "returned (checkAsync args fires w) = Settled k (Fulfilled r)"
    and "message r = None \<and> \<not> isValid r"
  with checkAsync_results [of args fires w k r]
  show "\<exists>e. \<not> instanceof_Error e
          \<and> (callback args (Number_of w) = Throws e
             \<or> (\<exists>j. callback args (Number_of w) = Returns (Settled j (Rejected e))))"
    by auto
qed (simp_all add: checkType_invariant checkNumberValue_invariant checkStringLength_invariant
    pickValid_def pickInvalid_def)

theorem validation_invariant_witness:
  "returned (checkAsync \<lparr>callback = resolves_at 3, timeout = None\<rparr> 0 (Some (Fin 5)))
     = Settled 3 (Fulfilled \<lparr>isValid = True, message = None\<rparr>)
   \<and> isValid \<lparr>isValid = True, message = None\<rparr>
   \<and> message \<lparr>isValid = True, message = None\<rparr> = None
   \<and> returned (checkAsync \<lparr>callback = rejects_at 3 JUndefined, timeout = None\<rparr> 0 (Some (Fin 5)))
     = Settled 3 (Fulfilled \<lparr>isValid = False, message = None\<rparr>)
   \<and> message \<lparr>isValid = False, message = None\<rparr> = None
   \<and> \<not> isValid \<lparr>isValid = False, message = None\<rparr>
   \<and> (\<exists>e. \<not> instanceof_Error e
          \<and> (callback \<lparr>callback = rejects_at 3 JUndefined, timeout = None\<rparr> (Number_of (Some (Fin 5)))
                = Throws e
             \<or> (\<exists>j. callback \<lparr>callback = rejects_at 3 JUndefined, timeout = None\<rparr>
                        (Number_of (Some (Fin 5)))
                      = Returns (Settled j (Rejected e)))))"
  using validation_invariant
    [of TString JNull "\<lambda>q. []" "Fin 0" "Fin 1" "\<lparr>callback = resolves_at 3, timeout = None\<rparr>" 0
        "Some (Fin 5)" "\<lparr>result = []\<rparr>"]
    validation_invariant
    [of TString JNull "\<lambda>q. []" "Fin 0" "Fin 1" "\<lparr>callback = rejects_at 3 JUndefined, timeout = None\<rparr>" 0
        "Some (Fin 5)" "\<lparr>result = []\<rparr>"]
  by (simp add: checkAsync_def resolves_at_def rejects_at_def Promise_race_def catch_message_def)

text \<open>
  As stated for \<open>checkAsync\<close>, C1 fails: a callback whose promise rejects with a plain
  string gives an invalid result without a message.
\<close>

theorem validation_invariant_counterexample:
  "returned (checkAsync \<lparr>callback = rejects_at 1 (JStr ''boom''), timeout = None\<rparr> 0 (Some (Fin 5)))
     = Settled 1 (Fulfilled \<lparr>isValid = False, message = None\<rparr>)
   \<and> \<not> (isValid \<lparr>isValid = False, message = None\<rparr> \<longleftrightarrow> message \<lparr>isValid = False, message = None\<rparr> = None)"
  by (simp add: checkAsync_def rejects_at_def Promise_race_def catch_message_def)

end
